theory Spec2Isabelle
  imports Main
begin

section \<open>Threshold classification (LatencyDiagnostic.tsx)\<close>

text \<open>
  The web UI colours each leg of the connection and the total from two fixed thresholds.
  The inputs are TypeScript numbers; the classification is read here on integers, on which
  the comparisons with 150 and 400 are exact.
\<close>

definition warnThreshold :: int where
  "warnThreshold = 150"

definition errorThreshold :: int where
  "errorThreshold = 400"

datatype latencyColor = ok | warn | error

record colors =
  client :: latencyColor
  server :: latencyColor
  total :: latencyColor

definition colorForLatency :: "int \<Rightarrow> latencyColor" where
  "colorForLatency l =
     (if l \<ge> errorThreshold then error
      else if l \<ge> warnThreshold then warn
      else ok)"

definition latencyColors :: "int \<Rightarrow> int \<Rightarrow> colors" where
  "latencyColors c s =
     (let clientColor = colorForLatency c;
          serverColor = colorForLatency s
      in if c \<ge> errorThreshold \<or> s \<ge> errorThreshold
         then \<lparr>client = clientColor, server = serverColor, total = error\<rparr>
         else if c \<ge> warnThreshold \<and> s \<ge> warnThreshold
         then \<lparr>client = clientColor, server = serverColor, total = warn\<rparr>
         else if (c \<ge> warnThreshold \<or> s \<ge> warnThreshold)
                 \<and> (c < warnThreshold \<or> s < warnThreshold)
         then \<lparr>client = clientColor, server = serverColor, total = warn\<rparr>
         else \<lparr>client = clientColor, server = serverColor, total = ok\<rparr>)"


section \<open>Latency monitor (lib/utils/diagnostics/latency/monitor.go)\<close>

subsection \<open>Errors, durations and the clock\<close>

text \<open>
  A Go \<open>error\<close> value is a \<open>go_error option\<close>: \<open>None\<close> is \<open>nil\<close>.
  \<open>trace.Wrap err\<close> keeps the error it wraps, and \<open>trace.Wrap err msg\<close> adds a message.
\<close>

datatype go_error =
    BadParameter string
  | Canceled
  | DeadlineExceeded
  | Failure string
  | WithMessage string go_error

text \<open>
  \<open>time.Duration\<close> is a signed 64-bit count of nanoseconds and \<open>time.Time\<close> is read as
  the nanoseconds of an instant on the clock in use. No arithmetic below leaves the 64-bit
  range except the subtraction of two instants, which Go saturates; it is written out in
  \<open>Sub\<close>.
\<close>

type_synonym Duration = int
type_synonym Time = int

definition Millisecond :: Duration where
  "Millisecond = 1000000"

definition Second :: Duration where
  "Second = 1000000000"

definition minDuration :: Duration where
  "minDuration = - (2 ^ 63)"

definition maxDuration :: Duration where
  "maxDuration = 2 ^ 63 - 1"

definition Sub :: "Time \<Rightarrow> Time \<Rightarrow> Duration" where
  \<comment> \<open>\<open>t.Sub(u)\<close>: the difference, or the nearest representable duration\<close>
  "Sub t u =
     (if t - u < minDuration then minDuration
      else if maxDuration < t - u then maxDuration
      else t - u)"

definition Milliseconds :: "Duration \<Rightarrow> int" where
  \<comment> \<open>\<open>int64(d) / 1e6\<close>: Go's integer division truncates towards zero\<close>
  "Milliseconds d = (if d < 0 then - ((- d) div 1000000) else d div 1000000)"

datatype 'c clock = RealClock | GivenClock 'c

definition NewRealClock :: "'c clock" where
  "NewRealClock = RealClock"

subsection \<open>Statistics, configuration and construction\<close>

record Statistics =
  Client :: int
  Server :: int

record ('p, 'r, 'c) MonitorConfig =
  ClientPinger :: "'p option"
  ServerPinger :: "'p option"
  Reporter :: "'r option"
  Clock :: "'c clock option"
  PingInterval :: Duration
  ReportInterval :: Duration

text \<open>
  \<open>CheckAndSetDefaults\<close> has a pointer receiver: it updates the configuration in place and
  returns an error. The model returns the configuration as it is left together with the
  error; the three early returns leave it as it was.
\<close>

definition CheckAndSetDefaults ::
  "('p, 'r, 'c) MonitorConfig \<Rightarrow> ('p, 'r, 'c) MonitorConfig \<times> go_error option" where
  "CheckAndSetDefaults c =
     (if ClientPinger c = None
        then (c, Some (BadParameter ''client pinger not provided to MonitorConfig''))
      else if ServerPinger c = None
        then (c, Some (BadParameter ''server pinger not provided to MonitorConfig''))
      else if Reporter c = None
        then (c, Some (BadParameter ''reporter not provided to MonitorConfig''))
      else
        let c1 = (if PingInterval c \<le> 0 then c\<lparr>PingInterval := 8 * Second\<rparr> else c);
            c2 = (if ReportInterval c1 \<le> 0 then c1\<lparr>ReportInterval := 10 * Second\<rparr> else c1);
            c3 = (if Clock c2 = None then c2\<lparr>Clock := Some NewRealClock\<rparr> else c2)
        in (c3, None))"

definition pingKey :: string where
  "pingKey = ''ping-ticker''"

definition reportingKey :: string where
  "reportingKey = ''reporting-ticker''"

record SubInterval =
  Key :: string
  FirstDuration :: Duration
  Jitter :: "Duration \<Rightarrow> Duration"
  Duration :: Duration

text \<open>
  Modelled from the spec: \<open>interval.MultiInterval\<close>, \<open>interval.NewMulti\<close> and \<open>Stop\<close>
  live in lib/utils/interval, which is not among the sources. The spec (4.1) has the
  scheduler constructed from a clock and a list of sub-interval configurations, each with
  a unique key, duplicate keys being a configuration error that is fatal to the caller at
  construction time, and has \<open>Stop\<close> release its timers. \<open>NewMulti\<close> returns a single
  value in the source, so the fatal error is not a returned one: the model gives \<open>None\<close>
  for it, and otherwise keeps what the scheduler was constructed from and whether it has
  been stopped.
\<close>

record 'c MultiInterval =
  mi_clock :: "'c clock option"
  mi_subs :: "SubInterval list"
  mi_stopped :: bool

definition NewMulti :: "'c clock option \<Rightarrow> SubInterval list \<Rightarrow> 'c MultiInterval option" where
  "NewMulti clk subs =
     (if distinct (map Key subs)
      then Some \<lparr>mi_clock = clk, mi_subs = subs, mi_stopped = False\<rparr>
      else None)"

definition Stop :: "'c MultiInterval \<Rightarrow> 'c MultiInterval" where
  "Stop t = t\<lparr>mi_stopped := True\<rparr>"

text \<open>
  The jitter functions \<open>seventhJitter\<close>, \<open>fullJitter\<close> and \<open>halfJitter\<close> come from
  api/utils/retryutils, which is not among the sources either; they are parameters.
\<close>

record jitters =
  seventhJitter :: "Duration \<Rightarrow> Duration"
  fullJitter :: "Duration \<Rightarrow> Duration"
  halfJitter :: "Duration \<Rightarrow> Duration"

text \<open>
  The pinger, reporter and clock fields of \<open>Monitor\<close> are interface values, copied from
  the configuration as they are; the two \<open>atomic.Int64\<close> fields start at zero.
\<close>

record ('p, 'r, 'c) Monitor =
  clientPinger :: "'p option"
  serverPinger :: "'p option"
  reporter :: "'r option"
  clock :: "'c clock option"
  ticker :: "'c MultiInterval"
  clientLatency :: int
  serverLatency :: int

text \<open>
  \<open>NewMonitor\<close> returns \<open>Some (Inl err)\<close> for \<open>(nil, err)\<close>, \<open>Some (Inr m)\<close> for
  \<open>(m, nil)\<close>, and \<open>None\<close> when the construction of the ticker is fatal.
\<close>

definition NewMonitor ::
  "jitters \<Rightarrow> ('p, 'r, 'c) MonitorConfig \<Rightarrow> (go_error + ('p, 'r, 'c) Monitor) option" where
  "NewMonitor j cfg0 =
     (case CheckAndSetDefaults cfg0 of
        (cfg, Some err) \<Rightarrow> Some (Inl err)
      | (cfg, None) \<Rightarrow>
          (case NewMulti (Clock cfg)
                  [\<lparr>Key = pingKey,
                    FirstDuration = fullJitter j (500 * Millisecond),
                    Jitter = seventhJitter j,
                    Duration = PingInterval cfg\<rparr>,
                   \<lparr>Key = reportingKey,
                    FirstDuration = halfJitter j (1500 * Millisecond),
                    Jitter = seventhJitter j,
                    Duration = ReportInterval cfg\<rparr>] of
             None \<Rightarrow> None
           | Some tk \<Rightarrow>
               Some (Inr \<lparr>clientPinger = ClientPinger cfg,
                          serverPinger = ServerPinger cfg,
                          reporter = Reporter cfg,
                          clock = Clock cfg,
                          ticker = tk,
                          clientLatency = 0,
                          serverLatency = 0\<rparr>)))"

definition GetStats :: "('p, 'r, 'c) Monitor \<Rightarrow> Statistics" where
  "GetStats m = \<lparr>Client = clientLatency m, Server = serverLatency m\<rparr>"


subsection \<open>Run and pingLoop\<close>

text \<open>
  \<open>Run\<close> starts one \<open>pingLoop\<close> goroutine per leg and then serves the ticker. The three
  goroutines, the two channels of capacity one between them and the context are modelled
  as a transition system: the state records where each goroutine stands, and an event is
  one branch of a \<open>select\<close> being taken, a call returning, or the context being cancelled.
  Go takes the \<open>default\<close> branch of a \<open>select\<close> only when no other branch is ready, and
  any ready branch otherwise; a send on a buffered channel is ready while the buffer has
  room, a receive while it holds a value, and \<open>ctx.Done()\<close> once the context is cancelled.
  What the ticker delivers, what the pingers and the reporter return and what the clock
  reads are inputs carried by the events.
\<close>

datatype leg = ClientLeg | ServerLeg

record Tick =
  Key :: string
  Time :: Time

datatype run_pc =
    RunCreated            \<comment> \<open>\<open>Run\<close> not called yet\<close>
  | RunSelect             \<comment> \<open>at the outer \<open>select\<close>\<close>
  | RunClientSend Time    \<comment> \<open>at the \<open>select\<close> that offers \<open>tick.Time\<close> to \<open>clientC\<close>\<close>
  | RunServerSend Time    \<comment> \<open>at the \<open>select\<close> that offers \<open>tick.Time\<close> to \<open>serverC\<close>\<close>
  | RunReturned

datatype leg_pc =
    LegNotStarted
  | LegSelect             \<comment> \<open>at the \<open>select\<close> of \<open>pingLoop\<close>\<close>
  | LegPing Time          \<comment> \<open>inside \<open>pinger.Ping(ctx)\<close>, holding \<open>then\<close>\<close>
  | LegExited             \<comment> \<open>\<open>pingLoop\<close> has returned\<close>

datatype call =
    PingCall leg
  | PingReturn leg "go_error option"
  | ReportCall Statistics "go_error option"
  | LogWarn string go_error
  | RunReturn

record ('p, 'r, 'c) system =
  mon :: "('p, 'r, 'c) Monitor"
  ctx_err :: "go_error option"      \<comment> \<open>\<open>ctx.Err()\<close>: \<open>nil\<close> until the context is done\<close>
  run_at :: run_pc
  clientC :: "Time list"
  serverC :: "Time list"
  client_at :: leg_pc
  server_at :: leg_pc
  calls :: "call list"              \<comment> \<open>what has been called and logged, oldest first\<close>

definition chan_cap :: nat where
  \<comment> \<open>\<open>make(chan time.Time, 1)\<close>\<close>
  "chan_cap = 1"

definition Created :: "('p, 'r, 'c) Monitor \<Rightarrow> ('p, 'r, 'c) system" where
  "Created m =
     \<lparr>mon = m, ctx_err = None, run_at = RunCreated, clientC = [], serverC = [],
      client_at = LegNotStarted, server_at = LegNotStarted, calls = []\<rparr>"

text \<open>
  \<open>pingLoop\<close> is handed its channel and a pointer to its latency field; the leg names
  both.
\<close>

fun pingC :: "leg \<Rightarrow> ('p, 'r, 'c) system \<Rightarrow> Time list" where
  "pingC ClientLeg s = clientC s"
| "pingC ServerLeg s = serverC s"

fun set_pingC :: "leg \<Rightarrow> Time list \<Rightarrow> ('p, 'r, 'c) system \<Rightarrow> ('p, 'r, 'c) system" where
  "set_pingC ClientLeg q s = s\<lparr>clientC := q\<rparr>"
| "set_pingC ServerLeg q s = s\<lparr>serverC := q\<rparr>"

fun leg_at :: "leg \<Rightarrow> ('p, 'r, 'c) system \<Rightarrow> leg_pc" where
  "leg_at ClientLeg s = client_at s"
| "leg_at ServerLeg s = server_at s"

fun set_leg_at :: "leg \<Rightarrow> leg_pc \<Rightarrow> ('p, 'r, 'c) system \<Rightarrow> ('p, 'r, 'c) system" where
  "set_leg_at ClientLeg pc s = s\<lparr>client_at := pc\<rparr>"
| "set_leg_at ServerLeg pc s = s\<lparr>server_at := pc\<rparr>"

fun Load :: "leg \<Rightarrow> ('p, 'r, 'c) Monitor \<Rightarrow> int" where
  "Load ClientLeg m = clientLatency m"
| "Load ServerLeg m = serverLatency m"

fun Store :: "leg \<Rightarrow> int \<Rightarrow> ('p, 'r, 'c) Monitor \<Rightarrow> ('p, 'r, 'c) Monitor" where
  "Store ClientLeg v m = m\<lparr>clientLatency := v\<rparr>"
| "Store ServerLeg v m = m\<lparr>serverLatency := v\<rparr>"

fun other_leg :: "leg \<Rightarrow> leg" where
  "other_leg ClientLeg = ServerLeg"
| "other_leg ServerLeg = ClientLeg"

datatype event =
    Cancel go_error                      \<comment> \<open>the context is cancelled, with this \<open>ctx.Err()\<close>\<close>
  | RunStart                             \<comment> \<open>\<open>Run\<close> is called\<close>
  | RunTick Tick "go_error option"       \<comment> \<open>outer select: a tick is received; what \<open>Report\<close> returns\<close>
  | RunSend                              \<comment> \<open>inner select: the send branch\<close>
  | RunDefault                           \<comment> \<open>inner select: the \<open>default\<close> branch\<close>
  | RunDone                              \<comment> \<open>any select of \<open>Run\<close>: the \<open>ctx.Done()\<close> branch\<close>
  | LegDone leg                          \<comment> \<open>select of \<open>pingLoop\<close>: the \<open>ctx.Done()\<close> branch\<close>
  | LegRecv leg                          \<comment> \<open>select of \<open>pingLoop\<close>: a tick time is received\<close>
  | LegPinged leg "go_error option" Time \<comment> \<open>\<open>Ping\<close> returns; what \<open>clock.Now()\<close> reads\<close>

fun step :: "event \<Rightarrow> ('p, 'r, 'c) system \<Rightarrow> ('p, 'r, 'c) system option" where
  "step (Cancel err) s =
     Some (if ctx_err s = None then s\<lparr>ctx_err := Some err\<rparr> else s)"
| "step RunStart s =
     (if run_at s = RunCreated
      then Some (s\<lparr>run_at := RunSelect, clientC := [], serverC := [],
                   client_at := LegSelect, server_at := LegSelect\<rparr>)
      else None)"
| "step (RunTick tick rep) s =
     (if run_at s = RunSelect
      then (if Key tick = pingKey
            then Some (s\<lparr>run_at := RunClientSend (Time tick)\<rparr>)
            else if Key tick = reportingKey
            then Some (s\<lparr>calls := calls s @ ReportCall (GetStats (mon s)) rep #
                           (case rep of
                              None \<Rightarrow> []
                            | Some err \<Rightarrow> [LogWarn ''failed to report latency stats'' err])\<rparr>)
            else Some s)
      else None)"
| "step RunSend s =
     (case run_at s of
        RunClientSend t \<Rightarrow>
          if length (clientC s) < chan_cap
          then Some (s\<lparr>clientC := clientC s @ [t], run_at := RunServerSend t\<rparr>)
          else None
      | RunServerSend t \<Rightarrow>
          if length (serverC s) < chan_cap
          then Some (s\<lparr>serverC := serverC s @ [t], run_at := RunSelect\<rparr>)
          else None
      | _ \<Rightarrow> None)"
| "step RunDefault s =
     (case run_at s of
        RunClientSend t \<Rightarrow>
          if length (clientC s) < chan_cap \<or> ctx_err s \<noteq> None
          then None
          else Some (s\<lparr>run_at := RunServerSend t\<rparr>)
      | RunServerSend t \<Rightarrow>
          if length (serverC s) < chan_cap \<or> ctx_err s \<noteq> None
          then None
          else Some (s\<lparr>run_at := RunSelect\<rparr>)
      | _ \<Rightarrow> None)"
| "step RunDone s =
     (if ctx_err s \<noteq> None
         \<and> (case run_at s of RunCreated \<Rightarrow> False | RunReturned \<Rightarrow> False | _ \<Rightarrow> True)
      then Some (s\<lparr>run_at := RunReturned,
                   mon := (mon s)\<lparr>ticker := Stop (ticker (mon s))\<rparr>,
                   calls := calls s @ [RunReturn]\<rparr>)
      else None)"
| "step (LegDone l) s =
     (if leg_at l s = LegSelect \<and> ctx_err s \<noteq> None then Some s else None)"
| "step (LegRecv l) s =
     (if leg_at l s = LegSelect
      then (case pingC l s of
              [] \<Rightarrow> None
            | t # rest \<Rightarrow>
                Some ((set_leg_at l (LegPing t) (set_pingC l rest s))
                        \<lparr>calls := calls s @ [PingCall l]\<rparr>))
      else None)"
| "step (LegPinged l res now) s =
     (case leg_at l s of
        LegPing t \<Rightarrow>
          (case res of
             Some err \<Rightarrow>
               Some ((set_leg_at l LegSelect s)
                       \<lparr>calls := calls s @
                          [PingReturn l res, LogWarn ''unexpected failure sending ping'' err]\<rparr>)
           | None \<Rightarrow>
               Some ((set_leg_at l LegSelect s)
                       \<lparr>mon := Store l (Milliseconds (Sub now t)) (mon s),
                        calls := calls s @ [PingReturn l res]\<rparr>))
      | _ \<Rightarrow> None)"

fun exec :: "event list \<Rightarrow> ('p, 'r, 'c) system \<Rightarrow> ('p, 'r, 'c) system option" where
  "exec [] s = Some s"
| "exec (e # es) s = (case step e s of None \<Rightarrow> None | Some s' \<Rightarrow> exec es s')"

subsection \<open>WebSocketPinger\<close>

text \<open>
  \<open>NewWebsocketPinger\<close> replaces the pong handler of the socket by one that offers the
  payload to \<open>pongC\<close> (capacity one) without blocking and then calls the handler that was
  installed before, if any.
\<close>

record ('w, 'c) WebSocketPinger =
  ws :: "'w option"
  pongC :: "string list"
  wsp_clock :: "'c clock option"



text \<open>
  \<open>Ping\<close> draws a fresh token, writes the ping frame and then loops on a \<open>select\<close>
  between \<open>pongC\<close> and \<open>ctx.Done()\<close>. The handler runs on the goroutine that reads the
  socket, so the call, the handler and the cancellation of the context interleave; as for
  \<open>Run\<close>, they are modelled as a transition system. A state holds the pinger with its
  \<open>pongC\<close>, \<open>ctx.Err()\<close> and where the call stands. The events are: a pong frame is read and
  the installed handler is called with its payload (the handler installed before is the
  parameter \<open>h\<close>, and what the handler returns goes back to the reader of the socket and
  is not kept); the context is cancelled; \<open>Ping\<close> is entered, with the token it draws
  and what \<open>WriteControl\<close> returns; its \<open>select\<close> takes the \<open>pongC\<close> branch; its \<open>select\<close>
  takes the \<open>ctx.Done()\<close> branch. One call is followed; what was read before it, or
  left by earlier calls, is what \<open>pongC\<close> holds when it is entered.
\<close>

datatype ping_pc =
    PingIdle                          \<comment> \<open>\<open>Ping\<close> not called yet\<close>
  | PingSelect string                 \<comment> \<open>at the \<open>select\<close> of the loop, holding \<open>payload\<close>\<close>
  | PingReturned "go_error option"    \<comment> \<open>\<open>Ping\<close> has returned this error\<close>

record ('w, 'c) ws_system =
  pinger :: "('w, 'c) WebSocketPinger"
  ws_ctx :: "go_error option"
  ping_at :: ping_pc






subsection \<open>Observations and concrete inputs\<close>

text \<open>Pings of a leg that have been called and have not returned, counted from the calls.\<close>

fun ping_delta :: "leg \<Rightarrow> call \<Rightarrow> int" where
  "ping_delta l (PingCall l') = (if l' = l then 1 else 0)"
| "ping_delta l (PingReturn l' res) = (if l' = l then - 1 else 0)"
| "ping_delta l (ReportCall st res) = 0"
| "ping_delta l (LogWarn msg err) = 0"
| "ping_delta l RunReturn = 0"

definition in_flight :: "leg \<Rightarrow> ('p, 'r, 'c) system \<Rightarrow> int" where
  "in_flight l s = sum_list (map (ping_delta l) (calls s))"


text \<open>
  Per leg, the facts that hold along every execution: the pings called and not returned
  are one while the leg is inside \<open>Ping\<close> and none otherwise, the channel holds at most
  its capacity, the loop has not returned, and it has not started before \<open>Run\<close> has.
\<close>

definition leg_inv :: "leg \<Rightarrow> ('p, 'r, 'c) system \<Rightarrow> bool" where
  "leg_inv l s =
     (in_flight l s = (case leg_at l s of LegPing t \<Rightarrow> 1 | _ \<Rightarrow> 0)
      \<and> length (pingC l s) \<le> chan_cap
      \<and> leg_at l s \<noteq> LegExited
      \<and> (run_at s = RunCreated \<longrightarrow> leg_at l s = LegNotStarted))"

text \<open>
  \<open>returns l e\<close>: the event is the return of a ping of leg \<open>l\<close>; \<open>measures l e\<close>: it is a
  successful one, which completes a measurement.
\<close>

fun returns :: "leg \<Rightarrow> event \<Rightarrow> bool" where
  "returns l (LegPinged l' res now) = (l' = l)"
| "returns l e = False"

fun measures :: "leg \<Rightarrow> event \<Rightarrow> bool" where
  "measures l (LegPinged l' None now) = (l' = l)"
| "measures l e = False"

text \<open>
  The clock is monotonic along an execution when every reading taken for a store is not
  before the tick time it is subtracted from.
\<close>

fun clock_ok :: "event \<Rightarrow> ('p, 'r, 'c) system \<Rightarrow> bool" where
  "clock_ok (LegPinged l res now) s = (case leg_at l s of LegPing t \<Rightarrow> t \<le> now | _ \<Rightarrow> True)"
| "clock_ok e s = True"

fun monotonic :: "event list \<Rightarrow> ('p, 'r, 'c) system \<Rightarrow> bool" where
  "monotonic [] s = True"
| "monotonic (e # es) s =
     (clock_ok e s \<and> (case step e s of None \<Rightarrow> True | Some s' \<Rightarrow> monotonic es s'))"

text \<open>Construct a monitor, run the events, and observe the final state.\<close>

definition run_from ::
  "jitters \<Rightarrow> ('p, 'r, 'c) MonitorConfig \<Rightarrow> event list \<Rightarrow> ('p, 'r, 'c) system option" where
  "run_from j cfg es =
     (case NewMonitor j cfg of
        Some (Inr m) \<Rightarrow> exec es (Created m)
      | _ \<Rightarrow> None)"

definition observe ::
  "(('p, 'r, 'c) system \<Rightarrow> 'a) \<Rightarrow> jitters \<Rightarrow> ('p, 'r, 'c) MonitorConfig \<Rightarrow> event list
     \<Rightarrow> 'a option" where
  "observe f j cfg es = map_option f (run_from j cfg es)"

definition jitters_id :: jitters where
  "jitters_id = \<lparr>seventhJitter = id, fullJitter = id, halfJitter = id\<rparr>"

definition cfg_defaults :: "(nat, nat, nat) MonitorConfig" where
  "cfg_defaults =
     \<lparr>ClientPinger = Some 1, ServerPinger = Some 2, Reporter = Some 3, Clock = None,
      PingInterval = 0, ReportInterval = 0\<rparr>"

definition cfg_missing :: "(nat, nat, nat) MonitorConfig" where
  "cfg_missing =
     \<lparr>ClientPinger = None, ServerPinger = Some 2, Reporter = Some 3, Clock = None,
      PingInterval = - 1, ReportInterval = 0\<rparr>"

definition cfg_negative :: "(nat, nat, nat) MonitorConfig" where
  "cfg_negative =
     \<lparr>ClientPinger = Some 1, ServerPinger = Some 2, Reporter = Some 3, Clock = None,
      PingInterval = - 5, ReportInterval = 0\<rparr>"

definition monitor_defaults :: "(nat, nat, nat) Monitor" where
  "monitor_defaults = projr (the (NewMonitor jitters_id cfg_defaults))"

definition final :: "event list \<Rightarrow> (nat, nat, nat) system" where
  "final es = the (run_from jitters_id cfg_defaults es)"

text \<open>
  Cancellation after one ping tick has been handed to the client leg: \<open>Run\<close> returns
  from the select that offers the tick to the server leg, and the two legs go on.
\<close>

definition es_leak :: "event list" where
  "es_leak =
     [RunStart, RunTick \<lparr>Key = pingKey, Time = 5\<rparr> None, RunSend, Cancel Canceled, RunDone,
      LegDone ClientLeg, LegDone ServerLeg, LegDone ServerLeg, LegRecv ClientLeg]"

text \<open>
  Two ping ticks, the second one arriving while the client leg is inside \<open>Ping\<close> for the
  first and the server leg has not yet taken the first.
\<close>

definition es_queue :: "event list" where
  "es_queue =
     [RunStart, RunTick \<lparr>Key = pingKey, Time = 1\<rparr> None, RunSend, RunSend, LegRecv ClientLeg,
      RunTick \<lparr>Key = pingKey, Time = 2\<rparr> None, RunSend]"


text \<open>A ping of the client leg that succeeds 999999 nanoseconds after its tick.\<close>

definition es_zero :: "event list" where
  "es_zero =
     [RunStart, RunTick \<lparr>Key = pingKey, Time = 0\<rparr> None, RunSend, RunSend, LegRecv ClientLeg,
      LegPinged ClientLeg None 999999]"

text \<open>
  The server leg has measured 7 milliseconds; in \<open>es_busy\<close> the client leg is then inside
  \<open>Ping\<close> for the tick of time 1000000.
\<close>

definition es_report :: "event list" where
  "es_report =
     [RunStart, RunTick \<lparr>Key = pingKey, Time = 1000000\<rparr> None, RunSend, RunSend,
      LegRecv ServerLeg, LegPinged ServerLeg None 8000000]"

definition es_busy :: "event list" where
  "es_busy = es_report @ [LegRecv ClientLeg]"

text \<open>While the client leg is inside \<open>Ping\<close>, another ping tick is handed to both legs.\<close>

definition es_meanwhile :: "event list" where
  "es_meanwhile = [RunTick \<lparr>Key = pingKey, Time = 3000000\<rparr> None, RunSend, RunSend]"










section \<open>Properties\<close>

subsection \<open>Threshold classification\<close>

text \<open>
  Claim C3. For non-negative integers, each leg is \<open>warn\<close> exactly from 150 up to 399,
  \<open>error\<close> exactly from 400 and \<open>ok\<close> below 150. The total is \<open>error\<close> exactly when a leg
  is at least 400, \<open>warn\<close> exactly when a leg is at least 150 and neither is at least 400,
  and \<open>ok\<close> when both are below 150; so two legs in [150, 400) give \<open>warn\<close>, not \<open>error\<close>.
  The function has a value on every input: the source has no failing path.
\<close>

theorem latencyColors_classification:
  assumes "0 \<le> c" and "0 \<le> s"
  shows "(client (latencyColors c s) = warn) = (150 \<le> c \<and> c < 400)
       \<and> (client (latencyColors c s) = error) = (400 \<le> c)
       \<and> (client (latencyColors c s) = ok) = (c < 150)
       \<and> (server (latencyColors c s) = warn) = (150 \<le> s \<and> s < 400)
       \<and> (server (latencyColors c s) = error) = (400 \<le> s)
       \<and> (server (latencyColors c s) = ok) = (s < 150)
       \<and> (total (latencyColors c s) = error) = (400 \<le> c \<or> 400 \<le> s)
       \<and> (total (latencyColors c s) = warn) = ((150 \<le> c \<or> 150 \<le> s) \<and> c < 400 \<and> s < 400)
       \<and> (total (latencyColors c s) = ok) = (c < 150 \<and> s < 150)"
  by (simp add: latencyColors_def colorForLatency_def warnThreshold_def errorThreshold_def Let_def)

theorem latencyColors_classification_witness:
  "(0::int) \<le> 200 \<and> (0::int) \<le> 399
   \<and> latencyColors 200 399 = \<lparr>client = warn, server = warn, total = warn\<rparr>
   \<and> total (latencyColors 200 399) \<noteq> error"
  using latencyColors_classification [of 200 399]
  by (simp add: latencyColors_def colorForLatency_def warnThreshold_def errorThreshold_def Let_def)

subsection \<open>Construction\<close>

lemma monitor_keys_distinct: "pingKey \<noteq> reportingKey"
  by (simp add: pingKey_def reportingKey_def)

text \<open>
  Claim C7. \<open>NewMonitor\<close> returns an error, and no monitor, exactly when the client pinger,
  the server pinger or the reporter is missing. Otherwise it returns a monitor holding the
  three dependencies, whose ping and report sub-intervals last 8 and 10 seconds when the
  configured interval is not supplied (zero) and the configured interval when it is
  positive, and whose clock is the real clock when none is supplied.
\<close>

theorem NewMonitor_validation:
  "(\<exists>err. NewMonitor j cfg = Some (Inl err))
     = (ClientPinger cfg = None \<or> ServerPinger cfg = None \<or> Reporter cfg = None)
   \<and> (ClientPinger cfg \<noteq> None \<and> ServerPinger cfg \<noteq> None \<and> Reporter cfg \<noteq> None \<longrightarrow>
        (\<exists>m. NewMonitor j cfg = Some (Inr m)
           \<and> clientPinger m = ClientPinger cfg
           \<and> serverPinger m = ServerPinger cfg
           \<and> reporter m = Reporter cfg
           \<and> clock m = (if Clock cfg = None then Some RealClock else Clock cfg)
           \<and> map SubInterval.Key (mi_subs (ticker m)) = [pingKey, reportingKey]
           \<and> map Duration (mi_subs (ticker m)) =
               [if PingInterval cfg = 0 then 8 * Second else
                  if PingInterval cfg < 0 then 8 * Second else PingInterval cfg,
                if ReportInterval cfg = 0 then 10 * Second else
                  if ReportInterval cfg < 0 then 10 * Second else ReportInterval cfg]))"
  using monitor_keys_distinct
  by (auto simp: NewMonitor_def CheckAndSetDefaults_def Let_def NewMulti_def NewRealClock_def)

theorem NewMonitor_validation_witness:
  "ClientPinger cfg_defaults \<noteq> None \<and> ServerPinger cfg_defaults \<noteq> None
   \<and> Reporter cfg_defaults \<noteq> None
   \<and> (\<exists>m. NewMonitor jitters_id cfg_defaults = Some (Inr m)
         \<and> clock m = Some RealClock
         \<and> map Duration (mi_subs (ticker m)) = [8000000000, 10000000000])"
  using NewMonitor_validation [of jitters_id cfg_defaults]
  by (auto simp: cfg_defaults_def Second_def)

lemma NewMonitor_defaults:
  "NewMonitor jitters_id cfg_defaults = Some (Inr monitor_defaults)"
  using monitor_keys_distinct
  by (simp add: monitor_defaults_def NewMonitor_def CheckAndSetDefaults_def cfg_defaults_def
      NewMulti_def Let_def)

text \<open>
  Claim C10, as stated: for every configuration, \<open>CheckAndSetDefaults\<close> replaces a zero or
  negative interval by the default and returns success. It fails on a configuration
  that lacks a required dependency: the three checks come first and return the error with
  the intervals untouched.
\<close>

theorem CheckAndSetDefaults_counterexample:
  "CheckAndSetDefaults cfg_missing
     = (cfg_missing, Some (BadParameter ''client pinger not provided to MonitorConfig''))
   \<and> PingInterval cfg_missing = - 1
   \<and> \<not> (snd (CheckAndSetDefaults cfg_missing) = None
          \<and> PingInterval (fst (CheckAndSetDefaults cfg_missing)) = 8 * Second)"
  by (simp add: CheckAndSetDefaults_def cfg_missing_def)

text \<open>
  Claim C10, amended. For every configuration that has its client pinger, server pinger
  and reporter, \<open>CheckAndSetDefaults\<close> returns success, with a zero or negative
  \<open>PingInterval\<close> replaced by 8 seconds and a zero or negative \<open>ReportInterval\<close> by 10
  seconds, and a positive interval kept. For every configuration, the error returned does
  not depend on the two intervals: a negative interval is never the reason for an error.
\<close>

theorem CheckAndSetDefaults_intervals:
  "(ClientPinger c \<noteq> None \<and> ServerPinger c \<noteq> None \<and> Reporter c \<noteq> None \<longrightarrow>
      snd (CheckAndSetDefaults c) = None
      \<and> PingInterval (fst (CheckAndSetDefaults c))
          = (if PingInterval c \<le> 0 then 8 * Second else PingInterval c)
      \<and> ReportInterval (fst (CheckAndSetDefaults c))
          = (if ReportInterval c \<le> 0 then 10 * Second else ReportInterval c))
   \<and> snd (CheckAndSetDefaults (c\<lparr>PingInterval := p, ReportInterval := r\<rparr>))
       = snd (CheckAndSetDefaults c)"
  by (simp add: CheckAndSetDefaults_def Let_def)

theorem CheckAndSetDefaults_intervals_witness:
  "ClientPinger cfg_negative \<noteq> None \<and> ServerPinger cfg_negative \<noteq> None
   \<and> Reporter cfg_negative \<noteq> None
   \<and> CheckAndSetDefaults cfg_negative =
       (cfg_negative\<lparr>PingInterval := 8000000000, ReportInterval := 10000000000,
                      Clock := Some RealClock\<rparr>, None)"
  using CheckAndSetDefaults_intervals [of cfg_negative 0 0]
  by (simp add: cfg_negative_def CheckAndSetDefaults_def Let_def Second_def NewRealClock_def)

subsection \<open>Executions of Run and pingLoop\<close>

lemma exec_invariant:
  assumes "exec es s = Some s'" and "P s"
    and "\<And>e s s'. P s \<Longrightarrow> step e s = Some s' \<Longrightarrow> P s'"
  shows "P s'"
  using assms(1,2)
proof (induction es arbitrary: s)
  case Nil
  then show ?case by simp
next
  case (Cons e es)
  from Cons.prems(1) obtain s1 where s1: "step e s = Some s1" and rest: "exec es s1 = Some s'"
    by (auto split: option.splits)
  from assms(3) [OF Cons.prems(2) s1] have "P s1" .
  with Cons.IH rest show ?case by blast
qed

lemma run_from_defaults:
  "run_from jitters_id cfg_defaults es = exec es (Created monitor_defaults)"
  by (simp add: run_from_def NewMonitor_defaults)

lemma monitor_defaults_latencies:
  "clientLatency monitor_defaults = 0" "serverLatency monitor_defaults = 0"
  using monitor_keys_distinct
  by (simp_all add: monitor_defaults_def NewMonitor_def CheckAndSetDefaults_def
      cfg_defaults_def NewMulti_def Let_def)

lemma leg_inv_Created: "leg_inv l (Created m)"
  by (cases l) (simp_all add: leg_inv_def Created_def in_flight_def chan_cap_def)

lemma leg_inv_step:
  assumes "leg_inv l s" and "step e s = Some s'"
  shows "leg_inv l s'"
proof (cases e)
  case (Cancel err)
  with assms show ?thesis
    by (cases l) (auto simp: leg_inv_def in_flight_def split: if_splits)
next
  case RunStart
  with assms show ?thesis
    by (cases l) (auto simp: leg_inv_def in_flight_def chan_cap_def split: if_splits)
next
  case (RunTick tick rep)
  with assms show ?thesis
    by (cases l; cases rep) (auto simp: leg_inv_def in_flight_def split: if_splits)
next
  case RunSend
  with assms show ?thesis
    by (cases l; cases "run_at s")
       (auto simp: leg_inv_def in_flight_def chan_cap_def split: if_splits)
next
  case RunDefault
  with assms show ?thesis
    by (cases l; cases "run_at s")
       (auto simp: leg_inv_def in_flight_def chan_cap_def split: if_splits)
next
  case RunDone
  with assms show ?thesis
    by (cases l) (auto simp: leg_inv_def in_flight_def split: if_splits)
next
  case (LegDone l')
  with assms show ?thesis by (auto split: if_splits)
next
  case (LegRecv l')
  with assms show ?thesis
    by (cases l; cases l')
       (auto simp: leg_inv_def in_flight_def chan_cap_def
             split: if_splits list.splits leg_pc.splits)
next
  case (LegPinged l' res now)
  with assms show ?thesis
    by (cases l; cases l'; cases res)
       (auto simp: leg_inv_def in_flight_def split: leg_pc.splits)
qed

lemma leg_inv_reachable:
  assumes "exec es (Created m) = Some s"
  shows "leg_inv l s"
  using assms leg_inv_Created leg_inv_step by (rule exec_invariant)

text \<open>
  No event makes a \<open>pingLoop\<close> return: its \<open>for\<close> has no condition and neither branch of
  its \<open>select\<close> returns or breaks, the \<open>ctx.Done()\<close> branch being empty.
\<close>

lemma pingLoop_never_returns:
  assumes "exec es (Created m) = Some s"
  shows "leg_at l s \<noteq> LegExited"
  using leg_inv_reachable [OF assms, of l] by (simp add: leg_inv_def)

text \<open>
  Once the context is cancelled, the \<open>ctx.Done()\<close> branch of whichever \<open>select\<close> \<open>Run\<close>
  stands at can be taken, and taking it makes \<open>Run\<close> return and stop the ticker.
\<close>

lemma Run_returns_when_cancelled:
  assumes "ctx_err s \<noteq> None" and "run_at s \<noteq> RunCreated" and "run_at s \<noteq> RunReturned"
  shows "\<exists>s'. step RunDone s = Some s' \<and> run_at s' = RunReturned
           \<and> mi_stopped (ticker (mon s'))"
  using assms by (cases "run_at s") (auto simp: Stop_def)

text \<open>
  Claim C1 says that cancelling the context makes \<open>Run\<close> return and both measurement
  tasks exit, with no pinger called after \<open>Run\<close> has returned. In the execution
  \<open>es_leak\<close> the context is cancelled and \<open>Run\<close> returns, as claimed; the server leg
  takes the empty \<open>ctx.Done()\<close> branch twice and is back at its \<open>select\<close>, and the client
  leg then receives the tick left in its channel and calls its pinger, after \<open>Run\<close> has
  returned. Neither leg has exited.
\<close>

theorem pingLoop_survives_cancellation:
  "observe run_at jitters_id cfg_defaults es_leak = Some RunReturned
   \<and> observe ctx_err jitters_id cfg_defaults es_leak = Some (Some Canceled)
   \<and> observe server_at jitters_id cfg_defaults es_leak = Some LegSelect
   \<and> observe client_at jitters_id cfg_defaults es_leak = Some (LegPing 5)
   \<and> observe calls jitters_id cfg_defaults es_leak = Some [RunReturn, PingCall ClientLeg]"
  by (simp add: observe_def run_from_defaults es_leak_def Created_def pingKey_def
      reportingKey_def chan_cap_def)

subsection \<open>Ping ticks\<close>













text \<open>
  The three branches at an offer made after cancellation: in \<open>es_leak\<close> cut before \<open>Run\<close>
  returns, the server leg is offered the tick of time 5 with its channel empty and the
  context cancelled. The send branch would queue the tick, the \<open>default\<close> branch cannot
  be taken, and the \<open>ctx.Done()\<close> branch makes \<open>Run\<close> return with the channel still empty.
\<close>

lemma offer_after_cancellation:
  "observe run_at jitters_id cfg_defaults (take 4 es_leak) = Some (RunServerSend 5)
   \<and> observe serverC jitters_id cfg_defaults (take 4 es_leak) = Some []
   \<and> observe serverC jitters_id cfg_defaults (take 4 es_leak @ [RunSend]) = Some [5]
   \<and> observe serverC jitters_id cfg_defaults (take 4 es_leak @ [RunDefault]) = None
   \<and> observe serverC jitters_id cfg_defaults (take 4 es_leak @ [RunDone]) = Some []
   \<and> observe run_at jitters_id cfg_defaults (take 4 es_leak @ [RunDone]) = Some RunReturned"
  by (simp add: observe_def run_from_defaults es_leak_def Created_def pingKey_def
      reportingKey_def chan_cap_def)

subsection \<open>Stored latencies\<close>

lemma Milliseconds_Sub_nonneg:
  assumes "t \<le> now"
  shows "0 \<le> Milliseconds (Sub now t)"
  using assms by (auto simp: Milliseconds_def Sub_def minDuration_def maxDuration_def)

lemma Milliseconds_Sub_zero:
  assumes "t \<le> now"
  shows "(Milliseconds (Sub now t) = 0) = (now - t < Millisecond)"
  using assms
  by (auto simp: Milliseconds_def Sub_def minDuration_def maxDuration_def Millisecond_def
      div_eq_0_iff)

text \<open>The only event that changes the stored latency of a leg is a successful ping of that leg.\<close>

lemma step_changes_latency:
  assumes "step e s = Some s'" and "Load l (mon s') \<noteq> Load l (mon s)"
  shows "\<exists>t now. e = LegPinged l None now \<and> leg_at l s = LegPing t
            \<and> Load l (mon s') = Milliseconds (Sub now t)"
proof (cases e)
  case (LegPinged l' res now)
  with assms show ?thesis
    by (cases l; cases l'; cases res) (auto split: leg_pc.splits)
next
  case (LegRecv l')
  with assms show ?thesis
    by (cases l; cases l') (auto split: if_splits list.splits)
next
  case RunSend
  with assms show ?thesis by (cases "run_at s") (auto split: if_splits)
next
  case RunDefault
  with assms show ?thesis by (cases "run_at s") (auto split: if_splits)
next
  case RunDone
  with assms show ?thesis by (cases l) (auto split: if_splits)
qed (use assms in \<open>auto split: if_splits\<close>)

lemma step_keeps_latency:
  assumes "step e s = Some s'" and "\<not> measures l e"
  shows "Load l (mon s') = Load l (mon s)"
proof (rule ccontr)
  assume "Load l (mon s') \<noteq> Load l (mon s)"
  from step_changes_latency [OF assms(1) this] obtain now where "e = LegPinged l None now"
    by blast
  with assms(2) show False by simp
qed

lemma exec_keeps_latency:
  assumes "exec es s = Some s'" and "\<forall>e\<in>set es. \<not> measures l e"
  shows "Load l (mon s') = Load l (mon s)"
  using assms
proof (induction es arbitrary: s)
  case Nil
  then show ?case by simp
next
  case (Cons e es)
  from Cons.prems(1) obtain s1 where s1: "step e s = Some s1" and rest: "exec es s1 = Some s'"
    by (auto split: option.splits)
  from Cons.prems(2) have "\<not> measures l e" and "\<forall>e\<in>set es. \<not> measures l e" by simp_all
  with step_keeps_latency [OF s1] Cons.IH [OF rest] show ?case by simp
qed

lemma measures_returns: "measures l e \<Longrightarrow> returns l e"
  by (cases "(l, e)" rule: measures.cases) simp_all

lemma step_keeps_started:
  assumes "step e s = Some s'" and "run_at s \<noteq> RunCreated"
  shows "run_at s' \<noteq> RunCreated"
proof (cases e)
  case RunSend
  with assms show ?thesis by (cases "run_at s") (auto split: if_splits)
next
  case RunDefault
  with assms show ?thesis by (cases "run_at s") (auto split: if_splits)
next
  case (LegRecv l)
  with assms show ?thesis by (cases l) (auto split: if_splits list.splits)
next
  case (LegPinged l res now)
  with assms show ?thesis by (cases l; cases res) (auto split: leg_pc.splits)
qed (use assms in \<open>auto split: if_splits\<close>)

lemma step_keeps_ping:
  assumes "step e s = Some s'" and "leg_at l s = LegPing t" and "\<not> returns l e"
    and "run_at s \<noteq> RunCreated"
  shows "leg_at l s' = LegPing t"
proof (cases e)
  case (Cancel err)
  with assms show ?thesis by (cases l) (auto split: if_splits)
next
  case RunStart
  with assms show ?thesis by (cases l) (auto split: if_splits)
next
  case (RunTick tick rep)
  with assms show ?thesis by (cases l) (auto split: if_splits)
next
  case RunSend
  with assms show ?thesis by (cases l; cases "run_at s") (auto split: if_splits)
next
  case RunDefault
  with assms show ?thesis by (cases l; cases "run_at s") (auto split: if_splits)
next
  case RunDone
  with assms show ?thesis by (cases l) (auto split: if_splits)
next
  case (LegDone l')
  with assms show ?thesis by (auto split: if_splits)
next
  case (LegRecv l')
  with assms show ?thesis
    by (cases l; cases l') (auto split: if_splits list.splits)
next
  case (LegPinged l' res now)
  with assms show ?thesis
    by (cases l; cases l'; cases res) (auto split: leg_pc.splits)
qed

lemma exec_keeps_ping:
  assumes "exec es s = Some s'" and "leg_at l s = LegPing t" and "\<forall>e\<in>set es. \<not> returns l e"
    and "run_at s \<noteq> RunCreated"
  shows "leg_at l s' = LegPing t"
  using assms
proof (induction es arbitrary: s)
  case Nil
  then show ?case by simp
next
  case (Cons e es)
  from Cons.prems(1) obtain s1 where s1: "step e s = Some s1" and rest: "exec es s1 = Some s'"
    by (auto split: option.splits)
  from Cons.prems(3) have now: "\<not> returns l e" and later: "\<forall>e\<in>set es. \<not> returns l e"
    by simp_all
  from step_keeps_ping [OF s1 Cons.prems(2) now Cons.prems(4)] have p: "leg_at l s1 = LegPing t" .
  from step_keeps_started [OF s1 Cons.prems(4)] have "run_at s1 \<noteq> RunCreated" .
  from Cons.IH [OF rest p later this] show ?case .
qed

lemma NewMonitor_Load:
  assumes "NewMonitor j cfg = Some (Inr m)"
  shows "Load l m = 0"
  using assms
  by (cases l) (auto simp: NewMonitor_def Let_def split: prod.splits option.splits)

text \<open>
  Claim C8. A monitor just returned by \<open>NewMonitor\<close> answers \<open>GetStats\<close> with
  \<open>{Client: 0, Server: 0}\<close>, and so does it in every state reached before a measurement
  completes. \<open>Statistics\<close> is a struct of two integers returned by value: assigning to
  the fields of the returned value gives another \<open>Statistics\<close> and leaves what the
  monitor stores, and what \<open>GetStats\<close> answers, as they were.
\<close>

theorem GetStats_initially_zero:
  assumes "NewMonitor j cfg = Some (Inr m)" and "exec es (Created m) = Some s"
    and "\<forall>e\<in>set es. \<not> measures ClientLeg e \<and> \<not> measures ServerLeg e"
  shows "GetStats m = \<lparr>Client = 0, Server = 0\<rparr>
       \<and> GetStats (mon s) = \<lparr>Client = 0, Server = 0\<rparr>
       \<and> (let st = (GetStats (mon s))\<lparr>Client := a, Server := b\<rparr>
          in st = \<lparr>Client = a, Server = b\<rparr>
             \<and> GetStats (mon s) = \<lparr>Client = 0, Server = 0\<rparr>)"
proof -
  from NewMonitor_Load [OF assms(1)] have z: "clientLatency m = 0" "serverLatency m = 0"
    using Load.simps by metis+
  from assms(3) have "\<forall>e\<in>set es. \<not> measures ClientLeg e" and "\<forall>e\<in>set es. \<not> measures ServerLeg e"
    by simp_all
  with exec_keeps_latency [OF assms(2)]
  have "Load ClientLeg (mon s) = Load ClientLeg (mon (Created m))"
    and "Load ServerLeg (mon s) = Load ServerLeg (mon (Created m))"
    by blast+
  with z have "clientLatency (mon s) = 0" and "serverLatency (mon s) = 0"
    by (simp_all add: Created_def)
  with z show ?thesis by (simp add: GetStats_def Let_def)
qed

theorem GetStats_initially_zero_witness:
  "NewMonitor jitters_id cfg_defaults = Some (Inr monitor_defaults)
   \<and> exec es_queue (Created monitor_defaults) = Some (final es_queue)
   \<and> filter (measures ClientLeg) es_queue = []
   \<and> filter (measures ServerLeg) es_queue = []
   \<and> GetStats monitor_defaults = \<lparr>Client = 0, Server = 0\<rparr>
   \<and> GetStats (mon (final es_queue)) = \<lparr>Client = 0, Server = 0\<rparr>
   \<and> (GetStats (mon (final es_queue)))\<lparr>Client := 7, Server := 9\<rparr> = \<lparr>Client = 7, Server = 9\<rparr>"
proof -
  have h: "exec es_queue (Created monitor_defaults) = Some (final es_queue)"
    by (simp add: final_def run_from_defaults es_queue_def Created_def pingKey_def
        reportingKey_def chan_cap_def)
  have q: "\<forall>e\<in>set es_queue. \<not> measures ClientLeg e \<and> \<not> measures ServerLeg e"
    by (simp add: es_queue_def)
  have f: "filter (measures ClientLeg) es_queue = []" "filter (measures ServerLeg) es_queue = []"
    by (simp_all add: es_queue_def)
  from GetStats_initially_zero [OF NewMonitor_defaults h q, of 7 9] NewMonitor_defaults h f
  show ?thesis by (simp add: Let_def)
qed

text \<open>
  Claim C4. In a state reached from a created monitor, a measurement task receives a
  signal and calls its pinger. Whatever the other goroutines do before the call returns,
  if the call returns an error the stored latency of the leg is the one from before the
  signal was received, nothing is stored for either leg, and the task is back at its
  \<open>select\<close>; if the call succeeds, the task stores the milliseconds elapsed since the
  tick it received into its own leg's field and leaves the other leg's. This holds for
  every signal, so for the one after a failed ping as well.
\<close>

theorem failed_ping_keeps_value:
  assumes "exec es0 (Created m) = Some s0" and "step (LegRecv l) s0 = Some s1"
    and "exec es s1 = Some s2" and "\<forall>e\<in>set es. \<not> returns l e"
  shows "(\<exists>s3. step (LegPinged l (Some err) now) s2 = Some s3
            \<and> Load l (mon s3) = Load l (mon s0)
            \<and> GetStats (mon s3) = GetStats (mon s2)
            \<and> leg_at l s3 = LegSelect)
       \<and> (\<exists>s3. step (LegPinged l None now) s2 = Some s3
            \<and> Load l (mon s3) = Milliseconds (Sub now (hd (pingC l s0)))
            \<and> Load (other_leg l) (mon s3) = Load (other_leg l) (mon s2)
            \<and> leg_at l s3 = LegSelect)"
proof -
  from assms(2) have sel: "leg_at l s0 = LegSelect" by (auto split: if_splits)
  with leg_inv_reachable [OF assms(1), of l] have "run_at s0 \<noteq> RunCreated"
    by (auto simp: leg_inv_def)
  from step_keeps_started [OF assms(2) this] have r1: "run_at s1 \<noteq> RunCreated" .
  from assms(2) obtain t rest where q: "pingC l s0 = t # rest"
    by (auto split: if_splits list.splits)
  with assms(2) have p1: "leg_at l s1 = LegPing t" and m1: "mon s1 = mon s0"
    by (cases l; auto split: if_splits)+
  from exec_keeps_ping [OF assms(3) p1 assms(4) r1] have p2: "leg_at l s2 = LegPing t" .
  from assms(4) measures_returns have "\<forall>e\<in>set es. \<not> measures l e" by blast
  from exec_keeps_latency [OF assms(3) this] m1
  have m2: "Load l (mon s2) = Load l (mon s0)" by simp
  have a: "\<exists>s3. step (LegPinged l (Some err) now) s2 = Some s3
            \<and> Load l (mon s3) = Load l (mon s0)
            \<and> GetStats (mon s3) = GetStats (mon s2) \<and> leg_at l s3 = LegSelect"
    using p2 m2 by (cases l) simp_all
  have b: "\<exists>s3. step (LegPinged l None now) s2 = Some s3
            \<and> Load l (mon s3) = Milliseconds (Sub now (hd (pingC l s0)))
            \<and> Load (other_leg l) (mon s3) = Load (other_leg l) (mon s2)
            \<and> leg_at l s3 = LegSelect"
    using p2 q by (cases l) simp_all
  from a b show ?thesis by blast
qed

lemma final_es_report:
  "final es_report =
     \<lparr>mon = monitor_defaults\<lparr>serverLatency := 7\<rparr>, ctx_err = None, run_at = RunSelect,
      clientC = [1000000], serverC = [], client_at = LegSelect, server_at = LegSelect,
      calls = [PingCall ServerLeg, PingReturn ServerLeg None]\<rparr>"
  by (simp add: final_def run_from_defaults es_report_def Created_def pingKey_def
      reportingKey_def chan_cap_def Milliseconds_def Sub_def minDuration_def maxDuration_def)

lemma final_es_busy:
  "final es_busy =
     \<lparr>mon = monitor_defaults\<lparr>serverLatency := 7\<rparr>, ctx_err = None, run_at = RunSelect,
      clientC = [], serverC = [], client_at = LegPing 1000000, server_at = LegSelect,
      calls = [PingCall ServerLeg, PingReturn ServerLeg None, PingCall ClientLeg]\<rparr>"
  by (simp add: final_def run_from_defaults es_busy_def es_report_def Created_def pingKey_def
      reportingKey_def chan_cap_def Milliseconds_def Sub_def minDuration_def maxDuration_def)

lemma final_es_meanwhile:
  "final (es_busy @ es_meanwhile) =
     \<lparr>mon = monitor_defaults\<lparr>serverLatency := 7\<rparr>, ctx_err = None, run_at = RunSelect,
      clientC = [3000000], serverC = [3000000], client_at = LegPing 1000000,
      server_at = LegSelect,
      calls = [PingCall ServerLeg, PingReturn ServerLeg None, PingCall ClientLeg]\<rparr>"
  by (simp add: final_def run_from_defaults es_busy_def es_report_def es_meanwhile_def
      Created_def pingKey_def reportingKey_def chan_cap_def Milliseconds_def Sub_def
      minDuration_def maxDuration_def)

theorem failed_ping_keeps_value_witness:
  "exec es_report (Created monitor_defaults) = Some (final es_report)
   \<and> step (LegRecv ClientLeg) (final es_report) = Some (final es_busy)
   \<and> exec es_meanwhile (final es_busy) = Some (final (es_busy @ es_meanwhile))
   \<and> filter (returns ClientLeg) es_meanwhile = []
   \<and> GetStats (mon (final es_report)) = \<lparr>Client = 0, Server = 7\<rparr>
   \<and> map_option (GetStats \<circ> mon)
        (step (LegPinged ClientLeg (Some (Failure ''closed'')) 9000000)
           (final (es_busy @ es_meanwhile)))
       = Some \<lparr>Client = 0, Server = 7\<rparr>
   \<and> map_option (GetStats \<circ> mon)
        (step (LegPinged ClientLeg None 9000000) (final (es_busy @ es_meanwhile)))
       = Some \<lparr>Client = 8, Server = 7\<rparr>"
proof -
  have h0: "exec es_report (Created monitor_defaults) = Some (final es_report)"
    by (simp add: final_def run_from_defaults es_report_def Created_def pingKey_def
        reportingKey_def chan_cap_def)
  have h1: "step (LegRecv ClientLeg) (final es_report) = Some (final es_busy)"
    by (simp add: final_es_report final_es_busy)
  have h2: "exec es_meanwhile (final es_busy) = Some (final (es_busy @ es_meanwhile))"
    unfolding final_es_meanwhile final_es_busy
    by (simp add: es_meanwhile_def pingKey_def reportingKey_def chan_cap_def)
  have h3: "\<forall>e\<in>set es_meanwhile. \<not> returns ClientLeg e"
    by (simp add: es_meanwhile_def)
  have g0: "GetStats (mon (final es_report)) = \<lparr>Client = 0, Server = 7\<rparr>"
    by (simp add: final_es_report GetStats_def monitor_defaults_latencies)
  have g2: "GetStats (mon (final (es_busy @ es_meanwhile))) = \<lparr>Client = 0, Server = 7\<rparr>"
    by (simp add: final_es_meanwhile GetStats_def monitor_defaults_latencies)
  have q: "hd (pingC ClientLeg (final es_report)) = 1000000"
    by (simp add: final_es_report)
  have v: "Milliseconds (Sub 9000000 1000000) = 8"
    by (simp add: Milliseconds_def Sub_def minDuration_def maxDuration_def)
  from failed_ping_keeps_value [OF h0 h1 h2 h3, of "Failure ''closed''" 9000000]
  obtain s3 s4
    where s3: "step (LegPinged ClientLeg (Some (Failure ''closed'')) 9000000)
                 (final (es_busy @ es_meanwhile)) = Some s3"
      and g3: "GetStats (mon s3) = GetStats (mon (final (es_busy @ es_meanwhile)))"
      and s4: "step (LegPinged ClientLeg None 9000000) (final (es_busy @ es_meanwhile)) = Some s4"
      and c4: "Load ClientLeg (mon s4)
                 = Milliseconds (Sub 9000000 (hd (pingC ClientLeg (final es_report))))"
      and o4: "Load (other_leg ClientLeg) (mon s4)
                 = Load (other_leg ClientLeg) (mon (final (es_busy @ es_meanwhile)))"
    by blast
  from c4 o4 q v g2 have "GetStats (mon s4) = \<lparr>Client = 8, Server = 7\<rparr>"
    by (simp add: GetStats_def)
  moreover have "filter (returns ClientLeg) es_meanwhile = []"
    by (simp add: es_meanwhile_def)
  ultimately show ?thesis using s3 g3 s4 g0 g2 h0 h1 h2 by simp
qed

lemma step_keeps_nonneg:
  assumes "step e s = Some s'" and "clock_ok e s" and "0 \<le> Load l (mon s)"
  shows "0 \<le> Load l (mon s')"
proof (cases "Load l (mon s') = Load l (mon s)")
  case True
  with assms(3) show ?thesis by simp
next
  case False
  from step_changes_latency [OF assms(1) False] obtain t now
    where "e = LegPinged l None now" and "leg_at l s = LegPing t"
      and v: "Load l (mon s') = Milliseconds (Sub now t)"
    by blast
  with assms(2) have "t \<le> now" by simp
  with v show ?thesis by (simp add: Milliseconds_Sub_nonneg)
qed

lemma exec_keeps_nonneg:
  assumes "exec es s = Some s'" and "monotonic es s" and "0 \<le> Load l (mon s)"
  shows "0 \<le> Load l (mon s')"
  using assms
proof (induction es arbitrary: s)
  case Nil
  then show ?case by simp
next
  case (Cons e es)
  from Cons.prems(1) obtain s1 where s1: "step e s = Some s1" and rest: "exec es s1 = Some s'"
    by (auto split: option.splits)
  from Cons.prems(2) s1 have ok: "clock_ok e s" and mono: "monotonic es s1" by simp_all
  from step_keeps_nonneg [OF s1 ok Cons.prems(3)] have "0 \<le> Load l (mon s1)" .
  with Cons.IH [OF rest mono] show ?case .
qed

text \<open>
  Claim C5, as stated: a stored value of zero occurs only in the never-measured state, and
  no successful measurement stores zero. It fails in \<open>es_zero\<close>, where the clock is
  monotonic: the client ping succeeds 999999 nanoseconds after its tick, and
  \<open>Milliseconds\<close> truncates the elapsed time to 0, which is stored.
\<close>

theorem successful_ping_stores_zero:
  "monotonic es_zero (Created monitor_defaults)
   \<and> observe calls jitters_id cfg_defaults es_zero
       = Some [PingCall ClientLeg, PingReturn ClientLeg None]
   \<and> observe (Load ClientLeg \<circ> mon) jitters_id cfg_defaults es_zero = Some 0"
  by (simp add: observe_def run_from_defaults es_zero_def Created_def pingKey_def
      reportingKey_def chan_cap_def Milliseconds_def Sub_def minDuration_def maxDuration_def)

text \<open>
  Claim C5, amended. In every state reached from a monitor returned by \<open>NewMonitor\<close>
  along an execution on which the clock is monotonic, the stored latency of each leg is
  not negative. Zero is the value before any measurement, and a successful measurement
  stores zero exactly when less than one millisecond has elapsed since its tick.
\<close>

theorem latency_never_negative:
  assumes "NewMonitor j cfg = Some (Inr m)" and "exec es (Created m) = Some s"
    and "monotonic es (Created m)"
  shows "0 \<le> Load l (mon s)
       \<and> Load l (mon (Created m)) = 0
       \<and> (\<forall>t now s'. leg_at l s = LegPing t \<longrightarrow> t \<le> now \<longrightarrow>
             step (LegPinged l None now) s = Some s' \<longrightarrow>
             (Load l (mon s') = 0) = (now - t < Millisecond))"
proof -
  have z: "Load l (mon (Created m)) = 0"
    using NewMonitor_Load [OF assms(1), of l] by (simp add: Created_def)
  then have "0 \<le> Load l (mon (Created m))" by simp
  from exec_keeps_nonneg [OF assms(2,3) this] have a: "0 \<le> Load l (mon s)" .
  have b: "(Load l (mon s') = 0) = (now - t < Millisecond)"
    if "leg_at l s = LegPing t" and "t \<le> now" and "step (LegPinged l None now) s = Some s'"
    for t now s'
    using that Milliseconds_Sub_zero [of t now] by (cases l) auto
  from a z b show ?thesis by blast
qed

theorem latency_never_negative_witness:
  "NewMonitor jitters_id cfg_defaults = Some (Inr monitor_defaults)
   \<and> exec es_busy (Created monitor_defaults) = Some (final es_busy)
   \<and> monotonic es_busy (Created monitor_defaults)
   \<and> Load ServerLeg (mon (final es_busy)) = 7
   \<and> 0 \<le> Load ServerLeg (mon (final es_busy))
   \<and> leg_at ClientLeg (final es_busy) = LegPing 1000000
   \<and> map_option (Load ClientLeg \<circ> mon) (step (LegPinged ClientLeg None 1999999) (final es_busy))
       = Some 0
   \<and> map_option (Load ClientLeg \<circ> mon) (step (LegPinged ClientLeg None 2000000) (final es_busy))
       = Some 1"
proof -
  have h2: "exec es_busy (Created monitor_defaults) = Some (final es_busy)"
    by (simp add: final_def run_from_defaults es_busy_def es_report_def Created_def
        pingKey_def reportingKey_def chan_cap_def)
  have h3: "monotonic es_busy (Created monitor_defaults)"
    by (simp add: es_busy_def es_report_def Created_def pingKey_def reportingKey_def
        chan_cap_def)
  have h4: "Load ServerLeg (mon (final es_busy)) = 7"
    by (simp add: final_es_busy)
  have h5: "leg_at ClientLeg (final es_busy) = LegPing 1000000"
    by (simp add: final_es_busy)
  have h6: "map_option (Load ClientLeg \<circ> mon)
              (step (LegPinged ClientLeg None 1999999) (final es_busy)) = Some 0"
    by (simp add: final_es_busy Milliseconds_def Sub_def minDuration_def maxDuration_def)
  have h7: "map_option (Load ClientLeg \<circ> mon)
              (step (LegPinged ClientLeg None 2000000) (final es_busy)) = Some 1"
    by (simp add: final_es_busy Milliseconds_def Sub_def minDuration_def maxDuration_def)
  from latency_never_negative [OF NewMonitor_defaults h2 h3, of ServerLeg]
  have "0 \<le> Load ServerLeg (mon (final es_busy))" by blast
  with NewMonitor_defaults h2 h3 h4 h5 h6 h7 show ?thesis by blast
qed

subsection \<open>Reporting\<close>

lemma Run_returns_only_on_done:
  assumes "step e s = Some s'" and "run_at s' = RunReturned" and "run_at s \<noteq> RunReturned"
  shows "e = RunDone \<and> ctx_err s \<noteq> None"
proof (cases e)
  case (LegRecv l)
  with assms show ?thesis by (cases l) (auto split: if_splits list.splits)
next
  case (LegPinged l res now)
  with assms show ?thesis by (cases l; cases res) (auto split: leg_pc.splits)
next
  case RunSend
  with assms show ?thesis by (cases "run_at s") (auto split: if_splits)
next
  case RunDefault
  with assms show ?thesis by (cases "run_at s") (auto split: if_splits)
qed (use assms in \<open>auto split: if_splits\<close>)

text \<open>
  Claim C9. When \<open>Run\<close> handles a report tick, the reporter is called with what
  \<open>GetStats\<close> returns in that state. Whatever the reporter returns, an error included,
  \<open>Run\<close> is back at its \<open>select\<close> with the monitor unchanged, and the next report tick
  it handles calls the reporter again. \<open>Run\<close> returns only by its \<open>ctx.Done()\<close>
  branches, once the context is cancelled.
\<close>

theorem Run_reports_snapshot:
  assumes "run_at s = RunSelect" and "Key tick = reportingKey"
  shows "(\<exists>s'. step (RunTick tick rep) s = Some s'
           \<and> calls s' = calls s @ ReportCall (GetStats (mon s)) rep #
                (case rep of None \<Rightarrow> []
                 | Some err \<Rightarrow> [LogWarn ''failed to report latency stats'' err])
           \<and> mon s' = mon s
           \<and> run_at s' = RunSelect
           \<and> (\<forall>tick' rep'. Key tick' = reportingKey \<longrightarrow>
                 (\<exists>s''. step (RunTick tick' rep') s' = Some s''
                    \<and> ReportCall (GetStats (mon s')) rep' \<in> set (calls s'')
                    \<and> run_at s'' = RunSelect)))
       \<and> (\<forall>e s'. step e s = Some s' \<longrightarrow> run_at s' = RunReturned \<longrightarrow>
             e = RunDone \<and> ctx_err s \<noteq> None)"
proof -
  have a: "\<exists>s'. step (RunTick tick rep) s = Some s'
           \<and> calls s' = calls s @ ReportCall (GetStats (mon s)) rep #
                (case rep of None \<Rightarrow> []
                 | Some err \<Rightarrow> [LogWarn ''failed to report latency stats'' err])
           \<and> mon s' = mon s
           \<and> run_at s' = RunSelect
           \<and> (\<forall>tick' rep'. Key tick' = reportingKey \<longrightarrow>
                 (\<exists>s''. step (RunTick tick' rep') s' = Some s''
                    \<and> ReportCall (GetStats (mon s')) rep' \<in> set (calls s'')
                    \<and> run_at s'' = RunSelect))"
    using assms by (simp add: pingKey_def reportingKey_def)
  have b: "e = RunDone \<and> ctx_err s \<noteq> None"
    if "step e s = Some s'" and "run_at s' = RunReturned" for e s'
    using Run_returns_only_on_done [OF that] assms(1) by simp
  from a b show ?thesis by blast
qed

theorem Run_reports_snapshot_witness:
  "run_at (final es_report) = RunSelect
   \<and> Key \<lparr>Key = reportingKey, Time = 9000000\<rparr> = reportingKey
   \<and> GetStats (mon (final es_report)) = \<lparr>Client = 0, Server = 7\<rparr>
   \<and> map_option calls
        (exec [RunTick \<lparr>Key = reportingKey, Time = 9000000\<rparr> (Some (Failure ''closed'')),
               RunTick \<lparr>Key = reportingKey, Time = 19000000\<rparr> None] (final es_report))
       = Some [PingCall ServerLeg, PingReturn ServerLeg None,
               ReportCall \<lparr>Client = 0, Server = 7\<rparr> (Some (Failure ''closed'')),
               LogWarn ''failed to report latency stats'' (Failure ''closed''),
               ReportCall \<lparr>Client = 0, Server = 7\<rparr> None]"
proof -
  have h: "run_at (final es_report) = RunSelect"
    by (simp add: final_es_report)
  have k: "Key \<lparr>Key = reportingKey, Time = 9000000\<rparr> = reportingKey" by simp
  have g: "GetStats (mon (final es_report)) = \<lparr>Client = 0, Server = 7\<rparr>"
    by (simp add: final_es_report GetStats_def monitor_defaults_latencies)
  have c: "map_option calls
        (exec [RunTick \<lparr>Key = reportingKey, Time = 9000000\<rparr> (Some (Failure ''closed'')),
               RunTick \<lparr>Key = reportingKey, Time = 19000000\<rparr> None] (final es_report))
       = Some [PingCall ServerLeg, PingReturn ServerLeg None,
               ReportCall \<lparr>Client = 0, Server = 7\<rparr> (Some (Failure ''closed'')),
               LogWarn ''failed to report latency stats'' (Failure ''closed''),
               ReportCall \<lparr>Client = 0, Server = 7\<rparr> None]"
    by (simp add: final_es_report GetStats_def monitor_defaults_latencies pingKey_def
        reportingKey_def)
  from Run_reports_snapshot [OF h k, of "Some (Failure ''closed'')"] h k g c show ?thesis
    by blast
qed

subsection \<open>WebSocketPinger\<close>

















end
